theory Spec2Isabelle
  imports Main "HOL-Library.Sublist" "HOL-Library.AList"
begin

section \<open>The NEST Travis CI build-log parser (extras/parse\_travis\_log.py)\<close>

text \<open>
  The script reads the build log several times, line by line, and each function scans
  the lines from the first to the last. A log is modelled as the list of its lines, in
  file order; a line keeps its line terminator, as the lines of a Python file object do.
  The script is Python 2 (it calls \<open>iteritems\<close>), so a string is a byte string
  and \<^typ>\<open>string\<close> models it exactly.
\<close>

type_synonym log = "string list"

subsection \<open>The string operations of Python that the script uses\<close>

text \<open>\<open>sub in s\<close>: \<open>sub\<close> occurs in \<open>s\<close> as a contiguous run of characters.\<close>

fun py_in :: "string \<Rightarrow> string \<Rightarrow> bool" where
  "py_in sub [] = (sub = [])"
| "py_in sub (c # cs) = (prefix sub (c # cs) \<or> py_in sub cs)"

text \<open>
  \<open>s.split(sep)\<close> for a separator of one character cuts \<open>s\<close> at every
  separator and keeps empty pieces, so the result always has at least one piece.
  \<open>split_by\<close> cuts at every character that satisfies a predicate; a character that
  is no separator goes to the front of the first piece of the rest. The rest always has
  a first piece (lemma \<open>split_by_not_Nil\<close>), so the second case of the
  \<open>case\<close> is never taken.
\<close>

fun split_by :: "(char \<Rightarrow> bool) \<Rightarrow> string \<Rightarrow> string list" where
  "split_by p [] = [[]]"
| "split_by p (c # cs) =
     (if p c then [] # split_by p cs
      else (case split_by p cs of
              w # ws \<Rightarrow> (c # w) # ws
            | [] \<Rightarrow> [[c]]))"

definition split_on :: "char \<Rightarrow> string \<Rightarrow> string list" where
  "split_on sep s = split_by (\<lambda>c. c = sep) s"

text \<open>
  The whitespace of a Python 2 byte string: space, tab, line feed, carriage return,
  vertical tab and form feed.
\<close>

definition is_space :: "char \<Rightarrow> bool" where
  "is_space c = (c \<in> set [CHR '' '', CHR 0x09, CHR 0x0A, CHR 0x0D, CHR 0x0B, CHR 0x0C])"

text \<open>\<open>s.strip()\<close> removes the whitespace at both ends.\<close>

definition strip :: "string \<Rightarrow> string" where
  "strip s = rev (dropWhile is_space (rev (dropWhile is_space s)))"

text \<open>\<open>s.split()\<close> cuts at runs of whitespace and drops the empty pieces.\<close>

definition split_ws :: "string \<Rightarrow> string list" where
  "split_ws s = filter (\<lambda>w. w \<noteq> []) (split_by is_space s)"

text \<open>\<open>s.find(c)\<close> is the index of the first \<open>c\<close>, or \<open>-1\<close> when there is none.\<close>

definition py_find :: "char \<Rightarrow> string \<Rightarrow> int" where
  "py_find c s = (if c \<in> set s then int (length (takeWhile (\<lambda>x. x \<noteq> c) s)) else - 1)"

text \<open>
  \<open>s[i:]\<close>: a negative index counts from the end, and an index out of range is
  clipped to the string.
\<close>

definition slice_from :: "int \<Rightarrow> string \<Rightarrow> string" where
  "slice_from i s =
     (let n = int (length s);
          j = (if i < 0 then max 0 (n + i) else min i n)
      in drop (nat j) s)"

text \<open>
  \<open>line.split(' ')[-1].strip()\<close>, the expression that takes a file name from a line.
  The index \<open>-1\<close> is always in range, since the split has at least one piece
  (lemma \<open>split_by_not_Nil\<close>).
\<close>

definition last_token :: "string \<Rightarrow> string" where
  "last_token line = strip (last (split_on CHR '' '' line))"

subsection \<open>Markers\<close>

definition is_message :: "string \<Rightarrow> string \<Rightarrow> bool" where
  "is_message line msg_number = (if py_in msg_number line then True else False)"

text \<open>
  The three values \<open>None\<close>, \<open>False\<close> and \<open>True\<close> of a status are
  \<^typ>\<open>bool option\<close>. Python's truth test takes \<open>None\<close> and \<open>False\<close>
  as false.
\<close>

definition truthy :: "bool option \<Rightarrow> bool" where
  "truthy v = (v = Some True)"

subsection \<open>is\_message\_pair\_in\_logfile\<close>

text \<open>One round of the loop: the two \<open>if\<close> statements, in the order of the source.\<close>

definition pair_step :: "string \<Rightarrow> string \<Rightarrow> bool option \<Rightarrow> string \<Rightarrow> bool option" where
  "pair_step msg_start_of_section msg_end_of_section pair_found line =
     (let pf = (if pair_found = None \<and> is_message line msg_start_of_section
                then Some False else pair_found)
      in if \<not> truthy pf \<and> is_message line msg_end_of_section then Some True else pf)"

definition is_message_pair_in_logfile :: "log \<Rightarrow> string \<Rightarrow> string \<Rightarrow> bool option" where
  "is_message_pair_in_logfile lines msg_start_of_section msg_end_of_section =
     foldl (pair_step msg_start_of_section msg_end_of_section) None lines"

subsection \<open>is\_message\_in\_logfile\<close>

fun is_message_in_logfile :: "log \<Rightarrow> string \<Rightarrow> bool" where
  "is_message_in_logfile [] msg_number = False"
| "is_message_in_logfile (line # rest) msg_number =
     (if is_message line msg_number then True else is_message_in_logfile rest msg_number)"

subsection \<open>list\_of\_changed\_files\<close>



subsection \<open>Dictionaries\<close>

text \<open>
  A Python dictionary is modelled as the list of its items in the order in which the
  dictionary iterates over them, with one item for each key. \<open>k in d\<close> and
  \<open>d[k]\<close> are \<^const>\<open>map_of\<close>, \<open>d[k] = v\<close> is \<open>AList.update\<close>
  (it replaces the value of a key that is there and adds a new key otherwise), and
  \<open>d.keys()\<close>, which in Python 2 is a list, is the list of the first components.
  Python 2 fixes the place of a new key by its hash value; the model puts it last. The
  properties of the extractors below are stated through \<^const>\<open>map_of\<close> and do not
  depend on that place.
\<close>

type_synonym messages = "(string \<times> int) list"
type_synonym summary = "(string \<times> messages) list"

definition keys :: "('k \<times> 'v) list \<Rightarrow> 'k list" where
  "keys d = map fst d"

text \<open>
  \<open>if message not in d: d[message] = 0\<close> followed by \<open>d[message] += 1\<close>.
\<close>

definition count_message :: "messages \<Rightarrow> string \<Rightarrow> messages" where
  "count_message d message =
     (case map_of d message of
        None \<Rightarrow> AList.update message (0 + 1) (AList.update message 0 d)
      | Some n \<Rightarrow> AList.update message (n + 1) d)"

subsection \<open>The four per-file message extractors\<close>

text \<open>
  \<open>msg_summary_vera\<close>, \<open>msg_summary_cppcheck\<close>, \<open>msg_summary_format\<close> and
  \<open>msg_summary_pep8\<close> are four copies of one loop, with the variables renamed; they
  differ only in how a line with the item marker is turned into a message, or skipped.
  The loop is written once, with that step as the parameter \<open>message_of\<close>
  (\<open>None\<close> is the \<open>continue\<close> that skips the line).

  In the source \<open>single_file_msgs\<close> is the very dictionary that was stored in
  \<open>all_msgs\<close> under \<open>source_filename\<close>, so counting a message in it changes
  the entry of \<open>all_msgs\<close> as well. The model keeps \<open>single_file_msgs\<close> as a
  variable of its own and writes every change of it through to that entry.
\<close>

record scan =
  all_msgs :: "summary option"
  in_a_section :: bool
  source_filename :: string
  single_file_msgs :: messages

definition scan_init :: scan where
  "scan_init = \<lparr>all_msgs = None, in_a_section = False, source_filename = [],
                 single_file_msgs = []\<rparr>"

definition msg_summary_step ::
  "(string \<Rightarrow> string option) \<Rightarrow> string \<Rightarrow> string \<Rightarrow> string \<Rightarrow> scan \<Rightarrow> string \<Rightarrow> scan" where
  "msg_summary_step message_of msg_section_start msg_section_end msg_item st line =
     (if \<not> in_a_section st \<and> is_message line msg_section_start
      then st\<lparr>in_a_section := True,
              source_filename := last_token line,
              single_file_msgs := [],
              all_msgs := Some (AList.update (last_token line) []
                                  (case all_msgs st of None \<Rightarrow> [] | Some t \<Rightarrow> t))\<rparr>
      else if in_a_section st
      then (if is_message line msg_item
            then (case message_of line of
                    None \<Rightarrow> st
                  | Some message \<Rightarrow>
                      st\<lparr>single_file_msgs := count_message (single_file_msgs st) message,
                         all_msgs := map_option
                           (AList.update (source_filename st)
                              (count_message (single_file_msgs st) message))
                           (all_msgs st)\<rparr>)
            else if is_message line msg_section_end
            then st\<lparr>in_a_section := False\<rparr>
            else st)
      else st)"

definition msg_summary_scan ::
  "(string \<Rightarrow> string option) \<Rightarrow> log \<Rightarrow> string \<Rightarrow> string \<Rightarrow> string \<Rightarrow> scan" where
  "msg_summary_scan message_of lines msg_section_start msg_section_end msg_item =
     foldl (msg_summary_step message_of msg_section_start msg_section_end msg_item)
       scan_init lines"

definition msg_summary ::
  "(string \<Rightarrow> string option) \<Rightarrow> log \<Rightarrow> string \<Rightarrow> string \<Rightarrow> string \<Rightarrow> summary option" where
  "msg_summary message_of lines msg_section_start msg_section_end msg_item =
     all_msgs (msg_summary_scan message_of lines msg_section_start msg_section_end msg_item)"

text \<open>VERA++, clang-format and PEP8: \<open>line.split(":")[-1].strip()\<close>.\<close>

definition vera_message :: "string \<Rightarrow> string option" where
  "vera_message line = Some (strip (last (split_on CHR '':'' line)))"

definition format_message :: "string \<Rightarrow> string option" where
  "format_message line = Some (strip (last (split_on CHR '':'' line)))"

definition pep8_message :: "string \<Rightarrow> string option" where
  "pep8_message line = Some (strip (last (split_on CHR '':'' line)))"

text \<open>
  Cppcheck: a line with \<open>Checking\<close> is skipped; the message is
  \<open>line[line.find('('):].strip()\<close>, and it is skipped when it contains
  \<open>is never used\<close> or \<open>(information)\<close>.
\<close>

definition cppcheck_message :: "string \<Rightarrow> string option" where
  "cppcheck_message line =
     (if py_in ''Checking'' line then None
      else let message = strip (slice_from (py_find CHR ''('' line) line)
           in if py_in ''is never used'' message then None
              else if py_in ''(information)'' message then None
              else Some message)"

definition msg_summary_vera :: "log \<Rightarrow> string \<Rightarrow> string \<Rightarrow> string \<Rightarrow> summary option" where
  "msg_summary_vera lines msg_vera_section_start msg_vera_section_end msg_vera =
     msg_summary vera_message lines msg_vera_section_start msg_vera_section_end msg_vera"

definition msg_summary_cppcheck :: "log \<Rightarrow> string \<Rightarrow> string \<Rightarrow> string \<Rightarrow> summary option" where
  "msg_summary_cppcheck lines msg_cppcheck_section_start msg_cppcheck_section_end msg_cppcheck =
     msg_summary cppcheck_message lines msg_cppcheck_section_start msg_cppcheck_section_end
       msg_cppcheck"

definition msg_summary_format :: "log \<Rightarrow> string \<Rightarrow> string \<Rightarrow> string \<Rightarrow> summary option" where
  "msg_summary_format lines msg_format_section_start msg_format_section_end msg_format =
     msg_summary format_message lines msg_format_section_start msg_format_section_end msg_format"

definition msg_summary_pep8 :: "log \<Rightarrow> string \<Rightarrow> string \<Rightarrow> string \<Rightarrow> summary option" where
  "msg_summary_pep8 lines msg_pep8_section_start msg_pep8_section_end msg_pep8 =
     msg_summary pep8_message lines msg_pep8_section_start msg_pep8_section_end msg_pep8"

subsection \<open>Exceptions\<close>

text \<open>
  The exceptions that the statements of the script can raise. A function that can
  raise returns \<open>Inl\<close> of the exception, and \<open>Inr\<close> of its result otherwise.
\<close>

datatype py_error = ValueError | IndexError | KeyError | TypeError | AssertionError

definition bind_err :: "py_error + 'a \<Rightarrow> ('a \<Rightarrow> py_error + 'b) \<Rightarrow> py_error + 'b" where
  "bind_err r f = (case r of Inl err \<Rightarrow> Inl err | Inr v \<Rightarrow> f v)"

text \<open>\<open>d[k]\<close> raises \<open>KeyError\<close> when the key is missing.\<close>

definition lookup :: "('k \<times> 'v) list \<Rightarrow> 'k \<Rightarrow> py_error + 'v" where
  "lookup d k = (case map_of d k of None \<Rightarrow> Inl KeyError | Some v \<Rightarrow> Inr v)"

subsection \<open>makebuild\_summary\<close>

record make_state =
  error_summary :: "(string \<times> int) list option"
  warning_summary :: "(string \<times> int) list option"
  number_of_error_msgs :: int
  number_of_warning_msgs :: int
  in_make_section :: bool

type_synonym make_result =
  "bool option \<times> int option \<times> (string \<times> int) list option
   \<times> int option \<times> (string \<times> int) list option"

definition make_init :: make_state where
  "make_init = \<lparr>error_summary = None, warning_summary = None, number_of_error_msgs = 0,
                 number_of_warning_msgs = 0, in_make_section = False\<rparr>"

text \<open>
  The body of \<open>if in_make_section\<close>. The test \<open>file_name not in error_summary\<close>
  raises \<open>TypeError\<close> when the dictionary is still \<open>None\<close>.
\<close>

definition make_section_step :: "make_state \<Rightarrow> string \<Rightarrow> py_error + make_state" where
  "make_section_step st line =
     bind_err
       (if py_in '': error:'' line
        then (case error_summary st of
                None \<Rightarrow> Inl TypeError
              | Some d \<Rightarrow>
                  Inr (st\<lparr>error_summary := Some (count_message d (hd (split_on CHR '':'' line))),
                          number_of_error_msgs := number_of_error_msgs st + 1\<rparr>))
        else Inr st)
       (\<lambda>st. if py_in '': warning:'' line
             then (case warning_summary st of
                     None \<Rightarrow> Inl TypeError
                   | Some d \<Rightarrow>
                       Inr (st\<lparr>warning_summary :=
                                 Some (count_message d (hd (split_on CHR '':'' line))),
                               number_of_warning_msgs := number_of_warning_msgs st + 1\<rparr>))
             else Inr st)"

fun makebuild_loop :: "string \<Rightarrow> string \<Rightarrow> make_state \<Rightarrow> log \<Rightarrow> py_error + make_result" where
  "makebuild_loop msg_make_section_start msg_make_section_end st [] =
     Inr (None, None, None, None, None)"
| "makebuild_loop msg_make_section_start msg_make_section_end st (line # rest) =
     bind_err
       (let st1 = (if is_message line msg_make_section_start
                   then st\<lparr>in_make_section := True, error_summary := Some [],
                           warning_summary := Some []\<rparr>
                   else st)
        in if in_make_section st1 then make_section_step st1 line else Inr st1)
       (\<lambda>st2. if is_message line msg_make_section_end
              then (if number_of_error_msgs st2 = 0
                    then Inr (Some True, Some (number_of_error_msgs st2), error_summary st2,
                              Some (number_of_warning_msgs st2), warning_summary st2)
                    else Inr (Some False, Some (number_of_error_msgs st2), error_summary st2,
                              Some (number_of_warning_msgs st2), warning_summary st2))
              else makebuild_loop msg_make_section_start msg_make_section_end st2 rest)"

definition makebuild_summary :: "log \<Rightarrow> string \<Rightarrow> string \<Rightarrow> py_error + make_result" where
  "makebuild_summary lines msg_make_section_start msg_make_section_end =
     makebuild_loop msg_make_section_start msg_make_section_end make_init lines"

subsection \<open>testsuite\_results\<close>

text \<open>
  \<open>s.isdigit()\<close> of a byte string: not empty, and decimal digits only.
  \<open>int(s)\<close> is modelled for a decimal number with an optional sign, embedded in
  whitespace; it raises \<open>ValueError\<close> on any other string.
\<close>

definition is_digit :: "char \<Rightarrow> bool" where
  "is_digit c = (c \<in> set ''0123456789'')"

definition isdigit :: "string \<Rightarrow> bool" where
  "isdigit s = (s \<noteq> [] \<and> list_all is_digit s)"

definition digits_value :: "string \<Rightarrow> int" where
  "digits_value s = foldl (\<lambda>n c. 10 * n + (of_char c - 48)) 0 s"

definition py_int :: "string \<Rightarrow> py_error + int" where
  "py_int s =
     (case strip s of
        [] \<Rightarrow> Inl ValueError
      | c # cs \<Rightarrow>
          if c = CHR ''-'' then (if isdigit cs then Inr (- digits_value cs) else Inl ValueError)
          else if c = CHR ''+'' then (if isdigit cs then Inr (digits_value cs) else Inl ValueError)
          else if isdigit (c # cs) then Inr (digits_value (c # cs))
          else Inl ValueError)"

record tests_state =
  in_installcheck_section :: bool
  in_results_section :: bool
  total_number_of_tests :: "int option"
  number_of_tests_failed :: "int option"

definition tests_init :: tests_state where
  "tests_init = \<lparr>in_installcheck_section = False, in_results_section = False,
                  total_number_of_tests = None, number_of_tests_failed = None\<rparr>"

text \<open>
  The body of \<open>if in_results_section\<close>: \<open>int(line.split(' ')[-1])\<close> can raise
  \<open>ValueError\<close>, and the index \<open>[0]\<close> raises \<open>IndexError\<close> when no piece of
  the line is a number.
\<close>

definition results_step :: "tests_state \<Rightarrow> string \<Rightarrow> py_error + tests_state" where
  "results_step st line =
     bind_err
       (if py_in ''Total number of tests:'' line
        then bind_err (py_int (last (split_on CHR '' '' line)))
               (\<lambda>n. Inr (st\<lparr>total_number_of_tests := Some n\<rparr>))
        else Inr st)
       (\<lambda>st. if py_in ''Failed'' line
             then (case map digits_value (filter isdigit (split_ws line)) of
                     [] \<Rightarrow> Inl IndexError
                   | n # ns \<Rightarrow> Inr (st\<lparr>number_of_tests_failed := Some n\<rparr>))
             else Inr st)"

text \<open>The body of \<open>if in_installcheck_section\<close>, up to the test for the end message.\<close>

definition installcheck_step :: "tests_state \<Rightarrow> string \<Rightarrow> py_error + tests_state" where
  "installcheck_step st line =
     (let st1 = (if strip line = ''NEST Testsuite Summary''
                 then st\<lparr>in_results_section := True\<rparr> else st)
      in if in_results_section st1 then results_step st1 line else Inr st1)"

type_synonym tests_result = "bool option \<times> int option \<times> int option"

text \<open>
  \<open>status_tests\<close> is \<open>None\<close> until the end message is found in the section; there
  it is set and the \<open>break\<close> leaves the loop.
\<close>

fun testsuite_loop :: "string \<Rightarrow> string \<Rightarrow> tests_state \<Rightarrow> log \<Rightarrow> py_error + tests_result" where
  "testsuite_loop msg_testsuite_section_start msg_testsuite_end_message st [] =
     Inr (None, total_number_of_tests st, number_of_tests_failed st)"
| "testsuite_loop msg_testsuite_section_start msg_testsuite_end_message st (line # rest) =
     (let st1 = (if is_message line msg_testsuite_section_start
                 then st\<lparr>in_installcheck_section := True\<rparr> else st)
      in if in_installcheck_section st1
         then bind_err (installcheck_step st1 line)
                (\<lambda>st2. if is_message line msg_testsuite_end_message
                       then Inr (Some (number_of_tests_failed st2 = Some 0),
                                 total_number_of_tests st2, number_of_tests_failed st2)
                       else testsuite_loop msg_testsuite_section_start
                              msg_testsuite_end_message st2 rest)
         else testsuite_loop msg_testsuite_section_start msg_testsuite_end_message st1 rest)"

definition testsuite_results :: "log \<Rightarrow> string \<Rightarrow> string \<Rightarrow> py_error + tests_result" where
  "testsuite_results lines msg_testsuite_section_start msg_testsuite_end_message =
     testsuite_loop msg_testsuite_section_start msg_testsuite_end_message tests_init lines"

subsection \<open>Counting the messages of a summary\<close>

text \<open>
  \<open>summary[file_name]\<close> raises \<open>KeyError\<close> when the file is not a key of the
  summary.
\<close>

definition number_of_msgs_for_file_in_summary :: "string \<Rightarrow> summary option \<Rightarrow> py_error + int" where
  "number_of_msgs_for_file_in_summary file_name summary =
     (case summary of
        None \<Rightarrow> Inr 0
      | Some t \<Rightarrow>
          bind_err (lookup t file_name)
            (\<lambda>d. Inr (foldl (\<lambda>number_of_messages (message, occurrences).
                               number_of_messages + occurrences) 0 d)))"

fun sum_msgs_of_files :: "summary option \<Rightarrow> int \<Rightarrow> string list \<Rightarrow> py_error + int" where
  "sum_msgs_of_files summary number_of_msgs [] = Inr number_of_msgs"
| "sum_msgs_of_files summary number_of_msgs (file_name # rest) =
     bind_err (number_of_msgs_for_file_in_summary file_name summary)
       (\<lambda>n. sum_msgs_of_files summary (number_of_msgs + n) rest)"

definition number_of_msgs_in_summary :: "summary option \<Rightarrow> py_error + int" where
  "number_of_msgs_in_summary summary =
     (case summary of
        None \<Rightarrow> Inr 0
      | Some t \<Rightarrow> sum_msgs_of_files summary 0 (keys t))"

subsection \<open>Status strings\<close>

definition convert_bool_value_to_status_string :: "bool option \<Rightarrow> string" where
  "convert_bool_value_to_status_string v =
     (if truthy v then ''Passed successfully''
      else if v = None then ''Skipped''
      else ''Failed'')"

definition convert_bool_value_to_yes_no_string :: "bool \<Rightarrow> string" where
  "convert_bool_value_to_yes_no_string v = (if v then ''Yes'' else ''No'')"

definition convert_summary_to_status_string :: "summary option \<Rightarrow> py_error + string" where
  "convert_summary_to_status_string summary =
     bind_err
       (if summary = None then Inr None
        else bind_err (number_of_msgs_in_summary summary)
               (\<lambda>number_of_messages. Inr (Some (number_of_messages = 0))))
       (\<lambda>v. Inr (convert_bool_value_to_status_string v))"

subsection \<open>code\_analysis\_per\_file\_tables\<close>

text \<open>\<open>str(n)\<close> of an integer: its decimal digits, after a minus sign when negative.\<close>

fun str_nat :: "nat \<Rightarrow> string" where
  "str_nat n =
     (if n < 10 then [char_of (48 + n)]
      else str_nat (n div 10) @ [char_of (48 + n mod 10)])"

definition str_int :: "int \<Rightarrow> string" where
  "str_int n = (if n < 0 then CHR ''-'' # str_nat (nat (- n)) else str_nat (nat n))"

text \<open>
  The rows that the source appends for one tool: the row of the label, then one row for
  each message of the file with its count.
\<close>

definition message_rows :: "string \<Rightarrow> messages \<Rightarrow> string list list" where
  "message_rows label d =
     [label, ''Count''] # map (\<lambda>(message, count). [message, str_int count]) d"

text \<open>
  The class \<open>AsciiTable\<close> of the package \<open>terminaltables\<close> is not part of the
  script. The parameter \<open>ascii_table\<close> stands for the text of a table with inner row
  borders, \<open>AsciiTable(rows).table\<close>.

  The body of the first loop, for one file of \<open>summary_format\<close>.
\<close>

definition analysis_file_table ::
  "(string list list \<Rightarrow> string) \<Rightarrow> summary \<Rightarrow> summary \<Rightarrow> summary \<Rightarrow> string \<Rightarrow> py_error + string"
  where
  "analysis_file_table ascii_table summary_vera summary_cppcheck summary_format file =
     bind_err (number_of_msgs_for_file_in_summary file (Some summary_vera))
       (\<lambda>number_of_vera_messages.
     bind_err (number_of_msgs_for_file_in_summary file (Some summary_cppcheck))
       (\<lambda>number_of_cppcheck_messages.
     bind_err (number_of_msgs_for_file_in_summary file (Some summary_format))
       (\<lambda>number_of_format_messages.
     if number_of_vera_messages > 0 \<or> number_of_cppcheck_messages > 0
        \<or> number_of_format_messages > 0
     then
       bind_err (if number_of_vera_messages > 0
                 then bind_err (lookup summary_vera file)
                        (\<lambda>d. Inr (message_rows ''VERA++ (MSGBLD0135):'' d))
                 else Inr [])
         (\<lambda>vera_rows.
       bind_err (if number_of_cppcheck_messages > 0
                 then bind_err (lookup summary_cppcheck file)
                        (\<lambda>d. Inr (message_rows ''Cppcheck (MSGBLD0155):'' d))
                 else Inr [])
         (\<lambda>cppcheck_rows.
       bind_err (if number_of_format_messages > 0
                 then bind_err (lookup summary_format file)
                        (\<lambda>d. Inr (message_rows ''clang-format (MSGBLD0175):'' d))
                 else Inr [])
         (\<lambda>format_rows.
       Inr (ascii_table ([[''+ + + '' @ file @ '' + + +'', []]]
                          @ vera_rows @ cppcheck_rows @ format_rows)
            @ [CHR 0x0A]))))
     else Inr [])))"

text \<open>The body of the second loop, for one file of \<open>summary_pep8\<close>.\<close>

definition pep8_file_table ::
  "(string list list \<Rightarrow> string) \<Rightarrow> summary \<Rightarrow> string \<Rightarrow> py_error + string" where
  "pep8_file_table ascii_table summary_pep8 file =
     bind_err (number_of_msgs_for_file_in_summary file (Some summary_pep8))
       (\<lambda>n. if n > 0
            then bind_err (lookup summary_pep8 file)
                   (\<lambda>d. Inr (ascii_table ([[''+ + + '' @ file @ '' + + +'', []]]
                                           @ message_rows ''PEP8 (MSGBLD0195):'' d)
                             @ [CHR 0x0A]))
            else Inr [])"

text \<open>\<open>for file in ...: all_tables += file_table\<close>.\<close>

fun append_file_tables ::
  "(string \<Rightarrow> py_error + string) \<Rightarrow> string \<Rightarrow> string list \<Rightarrow> py_error + string" where
  "append_file_tables file_table all_tables [] = Inr all_tables"
| "append_file_tables file_table all_tables (file # rest) =
     bind_err (file_table file)
       (\<lambda>t. append_file_tables file_table (all_tables @ t) rest)"

text \<open>
  The two \<open>assert\<close> statements compare the results of \<open>keys()\<close>, which are
  lists in Python 2: they hold when the two dictionaries have the same keys in the same
  order of iteration.
\<close>

definition code_analysis_per_file_tables ::
  "(string list list \<Rightarrow> string) \<Rightarrow> summary option \<Rightarrow> summary option \<Rightarrow> summary option
   \<Rightarrow> summary option \<Rightarrow> py_error + string" where
  "code_analysis_per_file_tables ascii_table summary_vera summary_cppcheck summary_format
     summary_pep8 =
     bind_err
       (case (summary_vera, summary_cppcheck, summary_format) of
          (Some sv, Some sc, Some sf) \<Rightarrow>
            if keys sf \<noteq> keys sc then Inl AssertionError
            else if keys sf \<noteq> keys sv then Inl AssertionError
            else append_file_tables (analysis_file_table ascii_table sv sc sf) [] (keys sf)
        | _ \<Rightarrow> Inr [])
       (\<lambda>all_tables.
          case summary_pep8 of
            None \<Rightarrow> Inr all_tables
          | Some sp \<Rightarrow> append_file_tables (pep8_file_table ascii_table sp) all_tables (keys sp))"

subsection \<open>build\_return\_code\<close>

text \<open>
  The condition is a chain of \<open>and\<close>, evaluated from the left until one operand is
  false: \<open>msgs_zero_then\<close> is one operand \<open>number_of_msgs_in_summary(...) == 0\<close>
  with the rest of the chain. \<open>status_cppcheck_init\<close> is a parameter that the body
  does not read.
\<close>

definition msgs_zero_then ::
  "summary option \<Rightarrow> (py_error + int) \<Rightarrow> py_error + int" where
  "msgs_zero_then summary continue =
     bind_err (number_of_msgs_in_summary summary) (\<lambda>n. if n = 0 then continue else Inr 1)"

definition build_return_code ::
  "bool option \<Rightarrow> bool option \<Rightarrow> bool option \<Rightarrow> bool option \<Rightarrow> bool option \<Rightarrow> bool option
   \<Rightarrow> bool option \<Rightarrow> summary option \<Rightarrow> summary option \<Rightarrow> summary option \<Rightarrow> summary option
   \<Rightarrow> py_error + int" where
  "build_return_code status_vera_init status_cppcheck_init status_format_init
     status_cmake_configure status_make status_make_install status_tests
     summary_vera summary_cppcheck summary_format summary_pep8 =
     (if (status_vera_init = None \<or> truthy status_vera_init)
         \<and> (status_format_init = None \<or> truthy status_format_init)
         \<and> truthy status_cmake_configure
         \<and> truthy status_make
         \<and> truthy status_make_install
         \<and> truthy status_tests
      then msgs_zero_then summary_vera
             (msgs_zero_then summary_cppcheck
                (msgs_zero_then summary_format
                   (msgs_zero_then summary_pep8 (Inr 0))))
      else Inr 1)"

subsection \<open>Notions used to state the properties\<close>

text \<open>
  The number of the lines of \<open>body\<close> that have the item marker and that
  \<open>message_of\<close> turns into \<open>message\<close>.
\<close>

definition item_count :: "(string \<Rightarrow> string option) \<Rightarrow> string \<Rightarrow> log \<Rightarrow> string \<Rightarrow> int" where
  "item_count message_of msg_item body message =
     int (length (filter (\<lambda>x. is_message x msg_item \<and> message_of x = Some message) body))"



section \<open>Properties\<close>

subsection \<open>Strings\<close>

lemmas string_eval = is_message_def last_token_def split_on_def strip_def is_space_def

lemma split_by_not_Nil: "split_by p s \<noteq> []"
  by (induction s) (auto split: list.splits)

lemma py_in_iff: "py_in sub s \<longleftrightarrow> (\<exists>ps ss. s = ps @ sub @ ss)"
proof (induction s)
  case Nil
  then show ?case by auto
next
  case (Cons c cs)
  have "(\<exists>ps ss. c # cs = ps @ sub @ ss) \<longleftrightarrow> prefix sub (c # cs) \<or> (\<exists>ps ss. cs = ps @ sub @ ss)"
    using sublist_Cons_right [of sub c cs] by (simp add: sublist_def)
  with Cons show ?case by simp
qed

lemma py_in_set: "py_in (c # sub) l \<Longrightarrow> c \<in> set l"
  by (auto simp: py_in_iff)

lemma length_split_by: "length (split_by p s) = Suc (length (filter p s))"
  by (induction s) (auto split: list.splits)

lemma split_by_no_separator: "\<forall>x\<in>set s. \<not> p x \<Longrightarrow> split_by p s = [s]"
  by (induction s) auto

lemma last_split_by_separator:
  "p c \<Longrightarrow> last (split_by p (xs @ c # ys)) = last (split_by p ys)"
proof (induction xs)
  case Nil
  then show ?case by (simp add: split_by_not_Nil)
next
  case (Cons x xs)
  have "2 \<le> length (split_by p (xs @ c # ys))"
    using Cons.prems by (simp add: length_split_by)
  then obtain w v ws where "split_by p (xs @ c # ys) = w # v # ws"
    by (cases "split_by p (xs @ c # ys)"; cases "tl (split_by p (xs @ c # ys))") auto
  with Cons show ?case by auto
qed

text \<open>The last piece of \<open>s.split(c)\<close> is the text after the last \<open>c\<close> of \<open>s\<close>.\<close>

lemma last_split_on:
  "last (split_on c s) = rev (takeWhile (\<lambda>x. x \<noteq> c) (rev s))"
proof (cases "c \<in> set s")
  case False
  then have a: "split_by (\<lambda>x. x = c) s = [s]"
    by (intro split_by_no_separator) auto
  from False have "\<forall>x\<in>set (rev s). x \<noteq> c"
    by auto
  then have b: "takeWhile (\<lambda>x. x \<noteq> c) (rev s) = rev s"
    by (simp only: takeWhile_eq_all_conv)
  show ?thesis unfolding split_on_def a b by simp
next
  case True
  then have "c \<in> set (rev s)" by simp
  then obtain ys zs where r: "rev s = ys @ c # zs" "c \<notin> set ys"
    by (meson split_list_first)
  then have s: "s = rev zs @ c # rev ys"
    by (metis append.assoc append_Cons append_Nil rev.simps(2) rev_append rev_rev_ident)
  have "split_by (\<lambda>x. x = c) (rev ys) = [rev ys]"
    using r(2) by (intro split_by_no_separator) auto
  then have "last (split_on c s) = rev ys"
    by (simp add: s split_on_def last_split_by_separator)
  moreover have "takeWhile (\<lambda>x. x \<noteq> c) (rev s) = ys"
  proof -
    from r(2) have "\<forall>x\<in>set ys. x \<noteq> c" by auto
    then have "takeWhile (\<lambda>x. x \<noteq> c) (ys @ c # zs) = ys @ takeWhile (\<lambda>x. x \<noteq> c) (c # zs)"
      by (intro takeWhile_append2) simp
    with r(1) show ?thesis by simp
  qed
  ultimately show ?thesis by simp
qed

text \<open>
  So the file name that the script takes from a line is the text after the last space
  of the line, without the whitespace at its ends.
\<close>

lemma last_token_eq:
  "last_token line = strip (rev (takeWhile (\<lambda>x. x \<noteq> CHR '' '') (rev line)))"
  by (simp add: last_token_def last_split_on)

lemma dropWhile_keeps_infix:
  "sub \<noteq> [] \<Longrightarrow> \<not> P (hd sub) \<Longrightarrow> \<exists>ps'. dropWhile P (ps @ sub @ ss) = ps' @ sub @ ss"
proof (induction ps)
  case Nil
  then show ?case by (cases sub) auto
next
  case (Cons p ps)
  then show ?case by (cases "P p") (auto intro: exI [of _ "p # ps"])
qed

lemma py_in_strip:
  assumes "py_in sub x" "sub \<noteq> []" "\<not> is_space (hd sub)" "\<not> is_space (last sub)"
  shows "py_in sub (strip x)"
proof -
  from assms(1) obtain ps ss where x: "x = ps @ sub @ ss"
    by (auto simp: py_in_iff)
  from dropWhile_keeps_infix [of sub is_space ps ss] assms(2,3) obtain ps'
    where a: "dropWhile is_space (ps @ sub @ ss) = ps' @ sub @ ss" by blast
  have "rev sub \<noteq> []" "\<not> is_space (hd (rev sub))"
    using assms(2,4) by (simp_all add: hd_rev)
  from dropWhile_keeps_infix [of "rev sub" is_space "rev ss" "rev ps'"] this obtain q
    where b: "dropWhile is_space (rev ss @ rev sub @ rev ps') = q @ rev sub @ rev ps'" by blast
  have "strip x = ps' @ sub @ rev q"
    by (simp add: strip_def x a b)
  then show ?thesis by (auto simp: py_in_iff)
qed

lemma slice_from_find:
  assumes "c \<in> set l"
  shows "slice_from (py_find c l) l = dropWhile (\<lambda>x. x \<noteq> c) l"
proof -
  have "length (takeWhile (\<lambda>x. x \<noteq> c) l) \<le> length l"
    by (rule length_takeWhile_le)
  then show ?thesis
    using assms by (simp add: slice_from_def py_find_def Let_def dropWhile_eq_drop min_def)
qed

lemma py_in_dropWhile:
  assumes "py_in (c # sub) l"
  shows "py_in (c # sub) (dropWhile (\<lambda>x. x \<noteq> c) l)"
proof -
  from assms obtain ps ss where l: "l = ps @ (c # sub) @ ss"
    by (auto simp: py_in_iff)
  from dropWhile_keeps_infix [of "c # sub" "\<lambda>x. x \<noteq> c" ps ss] obtain ps'
    where "dropWhile (\<lambda>x. x \<noteq> c) (ps @ (c # sub) @ ss) = ps' @ (c # sub) @ ss" by auto
  with l show ?thesis by (auto simp: py_in_iff)
qed

subsection \<open>Exceptions\<close>

lemma bind_err_Inr [simp]: "bind_err (Inr v) f = f v"
  by (simp add: bind_err_def)

lemma bind_err_Inl [simp]: "bind_err (Inl err) f = Inl err"
  by (simp add: bind_err_def)

lemma bind_err_cong_Inr:
  "(\<And>v. r = Inr v \<Longrightarrow> f v = g v) \<Longrightarrow> bind_err r f = bind_err r g"
  by (cases r) simp_all

subsection \<open>The pair scanner\<close>

lemma pair_step_Some_True [simp]: "pair_step s e (Some True) line = Some True"
  by (simp add: pair_step_def truthy_def)

lemma foldl_pair_step_Some_True [simp]: "foldl (pair_step s e) (Some True) ls = Some True"
  by (induction ls) simp_all

lemma foldl_pair_step_no_marker:
  "\<forall>x\<in>set ls. \<not> is_message x s \<and> \<not> is_message x e \<Longrightarrow> foldl (pair_step s e) v ls = v"
  by (induction ls arbitrary: v) (simp_all add: pair_step_def)

lemma pair_step_both:
  "is_message l s \<Longrightarrow> is_message l e \<Longrightarrow> pair_step s e None l = Some True"
  by (simp add: pair_step_def truthy_def)

text \<open>
  Claim C2. The docstring of \<open>is_message_pair_in_logfile\<close> promises \<open>None\<close> when
  the first message is not in the file. The test \<open>not pair_found\<close> of the second
  \<open>if\<close> is also true while \<open>pair_found\<close> is still \<open>None\<close>, so an end
  marker with no start marker before it sets the result to \<open>True\<close>: on the log of
  the single line \<open>MSGBLD0020\<close>, which has the end marker and no start marker, the
  function returns \<open>True\<close>, not \<open>None\<close>.
\<close>

theorem C2_end_before_start_returns_True:
  "\<not> is_message ''MSGBLD0020\<newline>'' ''MSGBLD0010''
   \<and> is_message ''MSGBLD0020\<newline>'' ''MSGBLD0020''
   \<and> is_message_pair_in_logfile [''MSGBLD0020\<newline>''] ''MSGBLD0010'' ''MSGBLD0020'' = Some True"
  by (simp add: is_message_pair_in_logfile_def pair_step_def is_message_def truthy_def)

text \<open>
  Claim C10. When the first line that contains the start marker also contains the end
  marker, and no earlier line contains either marker, the result is \<open>True\<close>: the
  line opens the section and closes it in the same round of the loop, and no later line
  changes a result that is \<open>True\<close>.
\<close>

theorem C10_same_line_completes:
  assumes "\<forall>x\<in>set pre. \<not> is_message x s \<and> \<not> is_message x e"
    and "is_message l s" and "is_message l e"
  shows "is_message_pair_in_logfile (pre @ l # post) s e = Some True"
  using assms
  by (simp add: is_message_pair_in_logfile_def foldl_pair_step_no_marker pair_step_both)

theorem C10_same_line_completes_witness:
  "is_message_pair_in_logfile
     ([''+ cmake ..\<newline>''] @ ''MSGBLD0230 start MSGBLD0240 end\<newline>''
        # [''MSGBLD0240\<newline>'', ''make\<newline>''])
     ''MSGBLD0230'' ''MSGBLD0240'' = Some True"
proof -
  have a: "\<forall>x\<in>set [''+ cmake ..\<newline>''].
      \<not> is_message x ''MSGBLD0230'' \<and> \<not> is_message x ''MSGBLD0240''"
    by (simp add: is_message_def)
  have b: "is_message ''MSGBLD0230 start MSGBLD0240 end\<newline>'' ''MSGBLD0230''"
    by (simp add: is_message_def)
  have c: "is_message ''MSGBLD0230 start MSGBLD0240 end\<newline>'' ''MSGBLD0240''"
    by (simp add: is_message_def)
  show ?thesis
    using C10_same_line_completes [OF a b c] .
qed






subsection \<open>The list of changed files\<close>








subsection \<open>The per-file message extractors\<close>

lemmas scan_eval = msg_summary_def msg_summary_scan_def msg_summary_step_def scan_init_def
  count_message_def

text \<open>
  The entry of \<open>all_msgs\<close> under \<open>source_filename\<close> is \<open>single_file_msgs\<close>
  at every point of the scan, as it is in the source, where the two are one object.
\<close>

lemma scan_alias:
  "all_msgs (msg_summary_scan mo ls s e i) = Some t \<Longrightarrow>
   map_of t (source_filename (msg_summary_scan mo ls s e i))
     = Some (single_file_msgs (msg_summary_scan mo ls s e i))"
proof (induction ls arbitrary: t rule: rev_induct)
  case Nil
  then show ?case by (simp add: msg_summary_scan_def scan_init_def)
next
  case (snoc x xs)
  then show ?case
    by (auto simp: msg_summary_scan_def msg_summary_step_def update_conv'
        split: if_splits option.splits)
qed

lemma step_all_msgs_Some:
  "all_msgs st \<noteq> None \<Longrightarrow> all_msgs (msg_summary_step mo s e i st l) \<noteq> None"
  by (auto simp: msg_summary_step_def split: option.splits)

lemma foldl_all_msgs_Some:
  "all_msgs st \<noteq> None \<Longrightarrow> all_msgs (foldl (msg_summary_step mo s e i) st ls) \<noteq> None"
proof (induction ls arbitrary: st)
  case Nil
  then show ?case by simp
next
  case (Cons l ls)
  from Cons.prems have "all_msgs (msg_summary_step mo s e i st l) \<noteq> None"
    by (rule step_all_msgs_Some)
  then have "all_msgs (foldl (msg_summary_step mo s e i) (msg_summary_step mo s e i st l) ls) \<noteq> None"
    by (rule Cons.IH)
  then show ?case by simp
qed

lemma step_start_Some:
  "\<not> in_a_section st \<Longrightarrow> is_message l s \<Longrightarrow> all_msgs (msg_summary_step mo s e i st l) \<noteq> None"
  by (simp add: msg_summary_step_def)

lemma step_outside_no_start:
  "\<not> in_a_section st \<Longrightarrow> \<not> is_message l s \<Longrightarrow> msg_summary_step mo s e i st l = st"
  by (simp add: msg_summary_step_def)

lemma scan_None_iff:
  "\<not> in_a_section st \<Longrightarrow> all_msgs st = None \<Longrightarrow>
   (all_msgs (foldl (msg_summary_step mo s e i) st ls) = None) = (\<forall>l\<in>set ls. \<not> is_message l s)"
proof (induction ls arbitrary: st)
  case Nil
  then show ?case by simp
next
  case (Cons l ls)
  show ?case
  proof (cases "is_message l s")
    case True
    with Cons.prems have "all_msgs (msg_summary_step mo s e i st l) \<noteq> None"
      by (simp add: step_start_Some)
    then have "all_msgs (foldl (msg_summary_step mo s e i) (msg_summary_step mo s e i st l) ls) \<noteq> None"
      by (rule foldl_all_msgs_Some)
    with True show ?thesis by simp
  next
    case False
    with Cons.prems have "msg_summary_step mo s e i st l = st"
      by (simp add: step_outside_no_start)
    with False Cons show ?thesis by simp
  qed
qed

lemma msg_summary_None_iff:
  "(msg_summary mo log s e i = None) = (\<forall>l\<in>set log. \<not> is_message l s)"
  unfolding msg_summary_def msg_summary_scan_def
  by (rule scan_None_iff) (simp_all add: scan_init_def)

text \<open>
  Claim C3. Each of the four extractors returns \<open>None\<close> exactly when no line of the
  log contains the start marker of its sections: \<open>None\<close> on every log without the
  marker, and a table, which may be empty, as soon as one line has it. The extractors
  raise nothing: every operation in them is defined on every line (the index \<open>-1\<close>
  of a split is in range by \<open>split_by_not_Nil\<close>, and a slice is defined for every
  index), so the model needs no exception for them.
\<close>

theorem C3_None_iff_no_start:
  "(msg_summary_vera log s e i = None) = (\<forall>l\<in>set log. \<not> is_message l s)
   \<and> (msg_summary_cppcheck log s e i = None) = (\<forall>l\<in>set log. \<not> is_message l s)
   \<and> (msg_summary_format log s e i = None) = (\<forall>l\<in>set log. \<not> is_message l s)
   \<and> (msg_summary_pep8 log s e i = None) = (\<forall>l\<in>set log. \<not> is_message l s)"
  by (simp add: msg_summary_vera_def msg_summary_cppcheck_def msg_summary_format_def
      msg_summary_pep8_def msg_summary_None_iff)

theorem C3_None_iff_no_start_witness:
  "msg_summary_vera [''+ make\<newline>'', ''MSGBLD0140\<newline>'']
     ''MSGBLD0130'' ''MSGBLD0140'' ''MSGBLD0135'' = None
   \<and> msg_summary_cppcheck [''+ make\<newline>'', ''MSGBLD0140\<newline>'']
     ''MSGBLD0130'' ''MSGBLD0140'' ''MSGBLD0135'' = None
   \<and> msg_summary_format [''+ make\<newline>'', ''MSGBLD0140\<newline>'']
     ''MSGBLD0130'' ''MSGBLD0140'' ''MSGBLD0135'' = None
   \<and> msg_summary_pep8 [''+ make\<newline>'', ''MSGBLD0140\<newline>'']
     ''MSGBLD0130'' ''MSGBLD0140'' ''MSGBLD0135'' = None"
  using C3_None_iff_no_start [of "[''+ make\<newline>'', ''MSGBLD0140\<newline>'']"
      "''MSGBLD0130''" "''MSGBLD0140''" "''MSGBLD0135''"]
  by (simp add: is_message_def)

lemma map_of_count_message:
  "map_of (count_message d m) =
     (map_of d)(m \<mapsto> (case map_of d m of None \<Rightarrow> 1 | Some n \<Rightarrow> n + 1))"
  by (auto simp: count_message_def update_conv' split: option.splits)

lemma step_start:
  assumes "\<not> in_a_section st" "is_message l s"
  shows "in_a_section (msg_summary_step mo s e i st l)"
    and "source_filename (msg_summary_step mo s e i st l) = last_token l"
    and "single_file_msgs (msg_summary_step mo s e i st l) = []"
    and "\<exists>t. all_msgs (msg_summary_step mo s e i st l) = Some t \<and> map_of t (last_token l) = Some []"
  using assms by (simp_all add: msg_summary_step_def update_conv')

text \<open>
  While the section of the file \<open>F\<close> stays open, the dictionary of \<open>F\<close> holds
  for every message the number of the item lines read so far that gave it.
\<close>

lemma body_phase:
  assumes st0: "in_a_section st0" "source_filename st0 = F" "single_file_msgs st0 = []"
      "\<exists>t. all_msgs st0 = Some t \<and> map_of t F = Some []"
    and body: "\<forall>x\<in>set body. is_message x i \<or> \<not> is_message x e"
  shows "in_a_section (foldl (msg_summary_step mo s e i) st0 body)
       \<and> source_filename (foldl (msg_summary_step mo s e i) st0 body) = F
       \<and> (\<exists>t. all_msgs (foldl (msg_summary_step mo s e i) st0 body) = Some t
              \<and> map_of t F = Some (single_file_msgs (foldl (msg_summary_step mo s e i) st0 body)))
       \<and> (\<forall>M. map_of (single_file_msgs (foldl (msg_summary_step mo s e i) st0 body)) M =
              (if item_count mo i body M = 0 then None else Some (item_count mo i body M)))"
  using body
proof (induction body rule: rev_induct)
  case Nil
  with st0 show ?case by (simp add: item_count_def)
next
  case (snoc x xs)
  let ?st = "foldl (msg_summary_step mo s e i) st0 xs"
  from snoc have IH: "in_a_section ?st" "source_filename ?st = F"
    "\<exists>t. all_msgs ?st = Some t \<and> map_of t F = Some (single_file_msgs ?st)"
    "\<forall>M. map_of (single_file_msgs ?st) M =
              (if item_count mo i xs M = 0 then None else Some (item_count mo i xs M))"
    by simp_all
  from snoc.prems have x: "is_message x i \<or> \<not> is_message x e" by simp
  show ?case
  proof (cases "is_message x i")
    case False
    with x IH have "msg_summary_step mo s e i ?st x = ?st"
      by (simp add: msg_summary_step_def)
    moreover from False have "item_count mo i (xs @ [x]) = item_count mo i xs"
      by (simp add: item_count_def fun_eq_iff)
    ultimately show ?thesis using IH by simp
  next
    case True
    show ?thesis
    proof (cases "mo x")
      case None
      with True IH have "msg_summary_step mo s e i ?st x = ?st"
        by (simp add: msg_summary_step_def)
      moreover from None have "item_count mo i (xs @ [x]) = item_count mo i xs"
        by (simp add: item_count_def fun_eq_iff)
      ultimately show ?thesis using IH by simp
    next
      case (Some m)
      from IH(3) obtain t where t: "all_msgs ?st = Some t" by blast
      let ?d = "count_message (single_file_msgs ?st) m"
      have step: "msg_summary_step mo s e i ?st x =
          ?st\<lparr>single_file_msgs := ?d, all_msgs := Some (AList.update F ?d t)\<rparr>"
        using True Some IH(1,2) t by (simp add: msg_summary_step_def)
      have cnt: "item_count mo i (xs @ [x]) M =
          (if M = m then item_count mo i xs M + 1 else item_count mo i xs M)" for M
        using True Some by (auto simp: item_count_def)
      have nn: "0 \<le> item_count mo i xs M" for M
        by (simp add: item_count_def)
      have "map_of ?d M =
              (if item_count mo i (xs @ [x]) M = 0 then None
               else Some (item_count mo i (xs @ [x]) M))" for M
        using IH(4) nn [of M] by (auto simp: map_of_count_message cnt)
      then show ?thesis
        using IH(1,2) by (simp add: step update_conv')
    qed
  qed
qed

lemma step_close:
  "in_a_section st \<Longrightarrow> \<not> is_message c i \<Longrightarrow> is_message c e \<Longrightarrow>
   msg_summary_step mo s e i st c = st\<lparr>in_a_section := False\<rparr>"
  by (simp add: msg_summary_step_def)

text \<open>Lines that open no section of \<open>F\<close> leave the dictionary of \<open>F\<close> as it is.\<close>

lemma rest_phase:
  assumes "\<exists>t. all_msgs st = Some t \<and> map_of t F = Some d"
    and "in_a_section st \<longrightarrow> source_filename st \<noteq> F"
    and "\<forall>x\<in>set rest. is_message x s \<longrightarrow> last_token x \<noteq> F"
  shows "\<exists>t. all_msgs (foldl (msg_summary_step mo s e i) st rest) = Some t \<and> map_of t F = Some d"
  using assms
proof (induction rest arbitrary: st)
  case Nil
  then show ?case by simp
next
  case (Cons x rest)
  let ?st = "msg_summary_step mo s e i st x"
  from Cons.prems(1) obtain t where t: "all_msgs st = Some t" "map_of t F = Some d" by blast
  from Cons.prems(3) have x: "is_message x s \<longrightarrow> last_token x \<noteq> F" by simp
  have a: "\<exists>t. all_msgs ?st = Some t \<and> map_of t F = Some d"
    using t x Cons.prems(2)
    by (auto simp: msg_summary_step_def update_conv' split: option.splits)
  have b: "in_a_section ?st \<longrightarrow> source_filename ?st \<noteq> F"
    using x Cons.prems(2)
    by (auto simp: msg_summary_step_def split: option.splits)
  from Cons.prems(3) have c: "\<forall>x\<in>set rest. is_message x s \<longrightarrow> last_token x \<noteq> F" by simp
  show ?case using Cons.IH [OF a b c] by simp
qed

text \<open>
  Claim C5, amended. The count of a message is the number of the item lines that gave
  it in the last section of the file; the counts of an earlier section of the same file
  are dropped when the file gets a new section, since the start line stores a new empty
  dictionary under the file name.

  The log is \<open>pre @ l # body @ rest\<close>: the scan of \<open>pre\<close> ends outside a
  section, the line \<open>l\<close> has the start marker and opens the section of the file
  \<open>last_token l\<close>, no line of \<open>body\<close> closes it (a line closes the section when
  it has the end marker and not the item marker), \<open>rest\<close> is empty or begins with
  a line that closes it, and no line of \<open>rest\<close> with the start marker names the
  file again. Then the table has an entry for the file, and this entry maps every
  message \<open>M\<close> to the number \<open>N\<close> of the item lines of \<open>body\<close> that give
  \<open>M\<close>, with no key \<open>M\<close> when \<open>N = 0\<close>. The theorem holds for every
  way \<open>mo\<close> of taking the message from an item line, so it holds for the four
  extractors, which are \<open>msg_summary\<close> at \<^const>\<open>vera_message\<close>,
  \<^const>\<open>cppcheck_message\<close>, \<^const>\<open>format_message\<close> and
  \<^const>\<open>pep8_message\<close>.
\<close>

theorem C5_last_section_counts:
  assumes out: "\<not> in_a_section (msg_summary_scan mo pre s e i)"
    and st: "is_message l s"
    and body: "\<forall>x\<in>set body. is_message x i \<or> \<not> is_message x e"
    and closed: "rest = [] \<or> (\<not> is_message (hd rest) i \<and> is_message (hd rest) e)"
    and later: "\<forall>x\<in>set rest. is_message x s \<longrightarrow> last_token x \<noteq> last_token l"
  shows "\<exists>t d. msg_summary mo (pre @ l # body @ rest) s e i = Some t
           \<and> map_of t (last_token l) = Some d
           \<and> (\<forall>M. map_of d M =
                (if item_count mo i body M = 0 then None else Some (item_count mo i body M)))"
proof -
  let ?f = "msg_summary_step mo s e i"
  let ?F = "last_token l"
  let ?st0 = "?f (foldl ?f scan_init pre) l"
  let ?st1 = "foldl ?f ?st0 body"
  from out have out': "\<not> in_a_section (foldl ?f scan_init pre)"
    by (simp add: msg_summary_scan_def)
  note s0 = step_start [OF out' st, of mo e i]
  from body_phase [OF s0(1) s0(2) s0(3) s0(4) body]
  have b1: "in_a_section ?st1" and b2: "source_filename ?st1 = ?F"
    and b3: "\<exists>t. all_msgs ?st1 = Some t \<and> map_of t ?F = Some (single_file_msgs ?st1)"
    and b4: "\<forall>M. map_of (single_file_msgs ?st1) M =
              (if item_count mo i body M = 0 then None else Some (item_count mo i body M))"
    by blast+
  have "\<exists>t. all_msgs (foldl ?f ?st1 rest) = Some t \<and> map_of t ?F = Some (single_file_msgs ?st1)"
  proof (cases rest)
    case Nil
    with b3 show ?thesis by simp
  next
    case (Cons c rest')
    with closed have c: "\<not> is_message c i" "is_message c e" by simp_all
    have sc: "?f ?st1 c = ?st1\<lparr>in_a_section := False\<rparr>"
      using b1 c by (rule step_close)
    have "\<exists>t. all_msgs (foldl ?f (?st1\<lparr>in_a_section := False\<rparr>) rest') = Some t
             \<and> map_of t ?F = Some (single_file_msgs ?st1)"
      using b3 later Cons by (intro rest_phase) simp_all
    with Cons sc show ?thesis by simp
  qed
  then obtain t where "all_msgs (foldl ?f ?st1 rest) = Some t"
    "map_of t ?F = Some (single_file_msgs ?st1)" by blast
  with b4 show ?thesis
    by (simp add: msg_summary_def msg_summary_scan_def)
qed

theorem C5_last_section_counts_witness:
  "\<exists>t d. msg_summary_vera
      ([] @ ''MSGBLD0130 VERA++ for a.cpp\<newline>''
         # [''MSGBLD0135 a.cpp:1: bad\<newline>'', ''MSGBLD0135 a.cpp:7: bad\<newline>'', ''note\<newline>'']
         @ [''MSGBLD0140 done\<newline>'', ''MSGBLD0130 VERA++ for b.cpp\<newline>''])
      ''MSGBLD0130'' ''MSGBLD0140'' ''MSGBLD0135'' = Some t
     \<and> map_of t ''a.cpp'' = Some d \<and> map_of d ''bad'' = Some 2"
proof -
  let ?l = "''MSGBLD0130 VERA++ for a.cpp\<newline>''"
  let ?body = "[''MSGBLD0135 a.cpp:1: bad\<newline>'', ''MSGBLD0135 a.cpp:7: bad\<newline>'', ''note\<newline>'']"
  let ?rest = "[''MSGBLD0140 done\<newline>'', ''MSGBLD0130 VERA++ for b.cpp\<newline>'']"
  have h1: "\<not> in_a_section
      (msg_summary_scan vera_message [] ''MSGBLD0130'' ''MSGBLD0140'' ''MSGBLD0135'')"
    by (simp add: msg_summary_scan_def scan_init_def)
  have h2: "is_message ?l ''MSGBLD0130''"
    by (simp add: is_message_def)
  have h3: "\<forall>x\<in>set ?body. is_message x ''MSGBLD0135'' \<or> \<not> is_message x ''MSGBLD0140''"
    by (simp add: is_message_def)
  have h4: "?rest = []
      \<or> (\<not> is_message (hd ?rest) ''MSGBLD0135'' \<and> is_message (hd ?rest) ''MSGBLD0140'')"
    by (simp add: is_message_def)
  have h5: "\<forall>x\<in>set ?rest. is_message x ''MSGBLD0130'' \<longrightarrow> last_token x \<noteq> last_token ?l"
    by (simp add: string_eval)
  have f: "last_token ?l = ''a.cpp''"
    by (simp add: string_eval)
  have n: "item_count vera_message ''MSGBLD0135'' ?body ''bad'' = 2"
    by (simp add: item_count_def vera_message_def string_eval)
  from C5_last_section_counts [OF h1 h2 h3 h4 h5] obtain t d where
    "msg_summary vera_message ([] @ ?l # ?body @ ?rest)
       ''MSGBLD0130'' ''MSGBLD0140'' ''MSGBLD0135'' = Some t"
    "map_of t (last_token ?l) = Some d"
    "\<forall>M. map_of d M = (if item_count vera_message ''MSGBLD0135'' ?body M = 0 then None
        else Some (item_count vera_message ''MSGBLD0135'' ?body M))"
    by blast
  then have "msg_summary_vera ([] @ ?l # ?body @ ?rest)
       ''MSGBLD0130'' ''MSGBLD0140'' ''MSGBLD0135'' = Some t
     \<and> map_of t ''a.cpp'' = Some d \<and> map_of d ''bad'' = Some 2"
    using f n by (simp add: msg_summary_vera_def)
  then show ?thesis by blast
qed

text \<open>
  The claim as it was stated counts the item lines of all the sections of a file. In
  this log the file \<open>a.cpp\<close> has two sections; one item line of the first section
  gives the message \<open>bad\<close>, and the second section has no item line. The table
  has no count for \<open>bad\<close>: the second start line has replaced the dictionary of
  the file by an empty one.
\<close>

theorem C5_reopened_section_counterexample:
  "msg_summary_vera
     [''MSGBLD0130 VERA++ for a.cpp\<newline>'', ''MSGBLD0135 a.cpp:1: bad\<newline>'',
      ''MSGBLD0140 done\<newline>'', ''MSGBLD0130 VERA++ for a.cpp\<newline>'', ''MSGBLD0140 done\<newline>'']
     ''MSGBLD0130'' ''MSGBLD0140'' ''MSGBLD0135'' = Some [(''a.cpp'', [])]"
  by (simp add: msg_summary_vera_def scan_eval vera_message_def string_eval)

lemma information_in_message:
  assumes "py_in ''(information)'' l"
  shows "py_in ''(information)'' (strip (slice_from (py_find CHR ''('' l) l))"
proof -
  from assms have "CHR ''('' \<in> set l" by (rule py_in_set)
  then have "slice_from (py_find CHR ''('' l) l = dropWhile (\<lambda>x. x \<noteq> CHR ''('') l"
    by (rule slice_from_find)
  moreover from assms have "py_in ''(information)'' (dropWhile (\<lambda>x. x \<noteq> CHR ''('') l)"
    by (rule py_in_dropWhile)
  ultimately show ?thesis
    by (simp add: py_in_strip is_space_def)
qed

lemma cppcheck_message_skipped:
  assumes "py_in ''Checking'' l \<or> py_in ''(information)'' l
     \<or> py_in ''is never used'' (strip (slice_from (py_find CHR ''('' l) l))"
  shows "cppcheck_message l = None"
  using assms information_in_message [of l]
  by (auto simp: cppcheck_message_def Let_def)

lemma step_skipped:
  "in_a_section st \<Longrightarrow> is_message l i \<Longrightarrow> mo l = None \<Longrightarrow> msg_summary_step mo s e i st l = st"
  by (simp add: msg_summary_step_def)

text \<open>
  Claim C6, amended. A cppcheck item line inside an open section changes nothing, so
  that the result is the one of the log without the line, when the line contains
  \<open>Checking\<close> or \<open>(information)\<close> anywhere, or when its message contains
  \<open>is never used\<close>. The message is the text of the line from its first opening
  parenthesis on (the last character of the line when it has no such parenthesis),
  without the whitespace at its ends.
\<close>

theorem C6_skipped_line_no_effect:
  assumes "in_a_section (msg_summary_scan cppcheck_message pre s e i)"
    and "is_message l i"
    and "py_in ''Checking'' l \<or> py_in ''(information)'' l
         \<or> py_in ''is never used'' (strip (slice_from (py_find CHR ''('' l) l))"
  shows "msg_summary_cppcheck (pre @ l # post) s e i = msg_summary_cppcheck (pre @ post) s e i"
proof -
  from assms(3) have "cppcheck_message l = None" by (rule cppcheck_message_skipped)
  with assms(1,2) have
    "msg_summary_step cppcheck_message s e i
        (foldl (msg_summary_step cppcheck_message s e i) scan_init pre) l
     = foldl (msg_summary_step cppcheck_message s e i) scan_init pre"
    by (simp add: msg_summary_scan_def step_skipped)
  then show ?thesis
    by (simp add: msg_summary_cppcheck_def msg_summary_def msg_summary_scan_def)
qed

theorem C6_skipped_line_no_effect_witness:
  "msg_summary_cppcheck
     ([''MSGBLD0150 cppcheck for a.cpp\<newline>'']
        @ ''MSGBLD0155 [a.cpp:3]: (information) skipped\<newline>''
        # [''MSGBLD0155 [a.cpp:9]: (error) bad\<newline>''])
     ''MSGBLD0150'' ''MSGBLD0160'' ''MSGBLD0155''
   = msg_summary_cppcheck
     ([''MSGBLD0150 cppcheck for a.cpp\<newline>''] @ [''MSGBLD0155 [a.cpp:9]: (error) bad\<newline>''])
     ''MSGBLD0150'' ''MSGBLD0160'' ''MSGBLD0155''"
proof -
  have h1: "in_a_section (msg_summary_scan cppcheck_message
      [''MSGBLD0150 cppcheck for a.cpp\<newline>''] ''MSGBLD0150'' ''MSGBLD0160'' ''MSGBLD0155'')"
    by (simp add: msg_summary_scan_def msg_summary_step_def scan_init_def is_message_def)
  have h2: "is_message ''MSGBLD0155 [a.cpp:3]: (information) skipped\<newline>'' ''MSGBLD0155''"
    by (simp add: is_message_def)
  have h3: "py_in ''Checking'' ''MSGBLD0155 [a.cpp:3]: (information) skipped\<newline>''
     \<or> py_in ''(information)'' ''MSGBLD0155 [a.cpp:3]: (information) skipped\<newline>''
     \<or> py_in ''is never used'' (strip (slice_from
           (py_find CHR ''('' ''MSGBLD0155 [a.cpp:3]: (information) skipped\<newline>'')
           ''MSGBLD0155 [a.cpp:3]: (information) skipped\<newline>''))"
    by simp
  show ?thesis
    using C6_skipped_line_no_effect [OF h1 h2 h3] .
qed

text \<open>
  The claim as it was stated skips every item line that contains \<open>is never used\<close>
  anywhere. The script looks for the phrase in the message only: the item line below
  has the phrase before its first parenthesis, its message is \<open>(style)\<close>, and the
  line is counted.
\<close>

theorem C6_never_used_before_paren_counterexample:
  "is_message ''MSGBLD0155 variable x is never used (style)\<newline>'' ''MSGBLD0155''
   \<and> py_in ''is never used'' ''MSGBLD0155 variable x is never used (style)\<newline>''
   \<and> msg_summary_cppcheck
       [''MSGBLD0150 cppcheck for a.cpp\<newline>'',
        ''MSGBLD0155 variable x is never used (style)\<newline>'']
       ''MSGBLD0150'' ''MSGBLD0160'' ''MSGBLD0155'' = Some [(''a.cpp'', [(''(style)'', 1)])]
   \<and> msg_summary_cppcheck
       [''MSGBLD0150 cppcheck for a.cpp\<newline>'']
       ''MSGBLD0150'' ''MSGBLD0160'' ''MSGBLD0155'' = Some [(''a.cpp'', [])]"
  by (simp add: msg_summary_cppcheck_def scan_eval cppcheck_message_def string_eval
      slice_from_def py_find_def Let_def)

subsection \<open>The build section\<close>

text \<open>
  Claim C4. In \<open>makebuild_summary\<close> the test for the end marker is not inside
  \<open>if in_make_section\<close>, unlike the same test in \<open>testsuite_results\<close>,
  \<open>list_of_changed_files\<close> and the four message extractors. So a line with the end
  marker ends the scan also when no start marker was read: on the log of the single line
  \<open>MSGBLD0260\<close> the function returns \<open>(True, 0, None, 0, None)\<close> and not
  the tuple of five \<open>None\<close>.
\<close>

theorem C4_end_without_start_not_all_None:
  "\<not> is_message ''MSGBLD0260\<newline>'' ''MSGBLD0250''
   \<and> makebuild_summary [''MSGBLD0260\<newline>''] ''MSGBLD0250'' ''MSGBLD0260''
       = Inr (Some True, Some 0, None, Some 0, None)"
  by (simp add: makebuild_summary_def make_init_def is_message_def)

subsection \<open>The test suite section\<close>

lemma testsuite_loop_no_start:
  "\<not> in_installcheck_section st \<Longrightarrow> \<forall>l\<in>set ls. \<not> is_message l s \<Longrightarrow>
   testsuite_loop s e st ls = Inr (None, total_number_of_tests st, number_of_tests_failed st)"
  by (induction ls arbitrary: st) simp_all

lemma results_step_section:
  "results_step st line = Inr st' \<Longrightarrow> in_installcheck_section st' = in_installcheck_section st"
  by (auto simp: results_step_def bind_err_def split: if_splits sum.splits list.splits)

lemma installcheck_step_section:
  "installcheck_step st line = Inr st' \<Longrightarrow> in_installcheck_section st' = in_installcheck_section st"
  by (auto simp: installcheck_step_def Let_def dest: results_step_section split: if_splits)

lemma testsuite_loop_stops:
  "in_installcheck_section st \<or> (\<exists>x\<in>set (pre @ [l]). is_message x s) \<Longrightarrow> is_message l e \<Longrightarrow>
   testsuite_loop s e st (pre @ l # post) = testsuite_loop s e st (pre @ [l])"
proof (induction pre arbitrary: st)
  case Nil
  then show ?case by (auto simp: Let_def intro: bind_err_cong_Inr)
next
  case (Cons x pre)
  let ?st1 = "if is_message x s then st\<lparr>in_installcheck_section := True\<rparr> else st"
  show ?case
  proof (cases "in_installcheck_section ?st1")
    case True
    have "testsuite_loop s e st2 (pre @ l # post) = testsuite_loop s e st2 (pre @ [l])"
      if "installcheck_step ?st1 x = Inr st2" for st2
    proof -
      from that True have "in_installcheck_section st2"
        by (simp add: installcheck_step_section)
      then show ?thesis using Cons.IH [of st2] Cons.prems(2) by simp
    qed
    then have "bind_err (installcheck_step ?st1 x)
        (\<lambda>st2. if is_message x e
               then Inr (Some (number_of_tests_failed st2 = Some 0),
                         total_number_of_tests st2, number_of_tests_failed st2)
               else testsuite_loop s e st2 (pre @ l # post))
      = bind_err (installcheck_step ?st1 x)
        (\<lambda>st2. if is_message x e
               then Inr (Some (number_of_tests_failed st2 = Some 0),
                         total_number_of_tests st2, number_of_tests_failed st2)
               else testsuite_loop s e st2 (pre @ [l]))"
      by (intro bind_err_cong_Inr) simp
    with True show ?thesis by (simp add: Let_def)
  next
    case False
    then have ns: "\<not> is_message x s" "\<not> in_installcheck_section st"
      by (auto split: if_splits)
    with Cons.prems have "\<exists>x\<in>set (pre @ [l]). is_message x s" by auto
    then have "testsuite_loop s e st (pre @ l # post) = testsuite_loop s e st (pre @ [l])"
      using Cons.IH [of st] Cons.prems(2) by simp
    with ns show ?thesis by (simp add: Let_def)
  qed
qed

lemma testsuite_loop_status:
  "in_installcheck_section st \<or> (\<exists>x\<in>set (pre @ [l]). is_message x s) \<Longrightarrow> is_message l e \<Longrightarrow>
   testsuite_loop s e st (pre @ [l]) = Inr (status, tot, nfailed) \<Longrightarrow>
   status = Some (nfailed = Some 0)"
proof (induction pre arbitrary: st)
  case Nil
  then show ?case
    by (auto simp: Let_def bind_err_def split: sum.splits if_splits)
next
  case (Cons x pre)
  let ?st1 = "if is_message x s then st\<lparr>in_installcheck_section := True\<rparr> else st"
  show ?case
  proof (cases "in_installcheck_section ?st1")
    case True
    with Cons.prems(3) obtain st2 where st2: "installcheck_step ?st1 x = Inr st2"
      and res: "(if is_message x e
               then Inr (Some (number_of_tests_failed st2 = Some 0),
                         total_number_of_tests st2, number_of_tests_failed st2)
               else testsuite_loop s e st2 (pre @ [l])) = Inr (status, tot, nfailed)"
      by (auto simp: Let_def bind_err_def split: sum.splits if_splits)
    from st2 True have in2: "in_installcheck_section st2"
      by (simp add: installcheck_step_section)
    show ?thesis
    proof (cases "is_message x e")
      case True
      with res show ?thesis by auto
    next
      case False
      with res have "testsuite_loop s e st2 (pre @ [l]) = Inr (status, tot, nfailed)" by simp
      with in2 Cons.prems(2) show ?thesis using Cons.IH [of st2] by simp
    qed
  next
    case False
    then have ns: "\<not> is_message x s" "\<not> in_installcheck_section st"
      by (auto split: if_splits)
    with Cons.prems have a: "\<exists>x\<in>set (pre @ [l]). is_message x s" by auto
    from ns Cons.prems(3) have "testsuite_loop s e st (pre @ [l]) = Inr (status, tot, nfailed)"
      by (simp add: Let_def)
    with a Cons.prems(2) show ?thesis using Cons.IH [of st] by simp
  qed
qed

text \<open>
  Claim C7. On a log without the start marker \<open>testsuite_results\<close> returns
  \<open>(None, None, None)\<close>. When a line \<open>l\<close> has the end marker and the start
  marker was read on \<open>l\<close> or before it, the lines after \<open>l\<close> play no part: the
  call gives what it gives on the log cut after \<open>l\<close>; and whenever it returns a
  result, the returned status is \<open>True\<close> if the returned number of failed tests is
  \<open>0\<close>, and \<open>False\<close> if it is another number or \<open>None\<close>. (The call
  raises \<open>ValueError\<close> or \<open>IndexError\<close> instead when a number of the results
  section cannot be read from a line before the scan stops.)
\<close>

theorem C7_testsuite_results:
  "((\<forall>x\<in>set log. \<not> is_message x s) \<longrightarrow> testsuite_results log s e = Inr (None, None, None))
   \<and> ((\<exists>x\<in>set (pre @ [l]). is_message x s) \<and> is_message l e \<longrightarrow>
        testsuite_results (pre @ l # post) s e = testsuite_results (pre @ [l]) s e
        \<and> (\<forall>status tot nfailed.
              testsuite_results (pre @ l # post) s e = Inr (status, tot, nfailed) \<longrightarrow>
              status = Some (nfailed = Some 0)))"
proof (intro conjI impI allI)
  assume "\<forall>x\<in>set log. \<not> is_message x s"
  then show "testsuite_results log s e = Inr (None, None, None)"
    by (simp add: testsuite_results_def testsuite_loop_no_start tests_init_def)
next
  assume a: "(\<exists>x\<in>set (pre @ [l]). is_message x s) \<and> is_message l e"
  then show eq: "testsuite_results (pre @ l # post) s e = testsuite_results (pre @ [l]) s e"
    unfolding testsuite_results_def by (intro testsuite_loop_stops) simp_all
  fix status tot nfailed
  assume "testsuite_results (pre @ l # post) s e = Inr (status, tot, nfailed)"
  with eq have "testsuite_loop s e tests_init (pre @ [l]) = Inr (status, tot, nfailed)"
    by (simp add: testsuite_results_def)
  with a show "status = Some (nfailed = Some 0)"
    by (intro testsuite_loop_status [of tests_init pre l s e status tot nfailed]) simp_all
qed

theorem C7_testsuite_results_witness:
  "testsuite_results [''+ make\<newline>'', ''MSGBLD0300\<newline>''] ''MSGBLD0290'' ''MSGBLD0300''
     = Inr (None, None, None)
   \<and> testsuite_results
       ([''MSGBLD0290\<newline>'', ''  NEST Testsuite Summary\<newline>'',
         ''  Total number of tests: 42\<newline>'', ''   Failed 0 of 42\<newline>'']
        @ ''MSGBLD0300\<newline>'' # [''   Failed 3\<newline>''])
       ''MSGBLD0290'' ''MSGBLD0300'' = Inr (Some True, Some 42, Some 0)"
proof -
  let ?pre = "[''MSGBLD0290\<newline>'', ''  NEST Testsuite Summary\<newline>'',
         ''  Total number of tests: 42\<newline>'', ''   Failed 0 of 42\<newline>'']"
  have a: "\<forall>x\<in>set [''+ make\<newline>'', ''MSGBLD0300\<newline>'']. \<not> is_message x ''MSGBLD0290''"
    by (simp add: is_message_def)
  have b: "(\<exists>x\<in>set (?pre @ [''MSGBLD0300\<newline>'']). is_message x ''MSGBLD0290'')
      \<and> is_message ''MSGBLD0300\<newline>'' ''MSGBLD0300''"
    by (simp add: is_message_def)
  have c: "testsuite_results (?pre @ [''MSGBLD0300\<newline>'']) ''MSGBLD0290'' ''MSGBLD0300''
      = Inr (Some True, Some 42, Some 0)"
    by (simp add: testsuite_results_def tests_init_def installcheck_step_def results_step_def
        py_int_def isdigit_def is_digit_def digits_value_def split_ws_def string_eval Let_def)
  note t = C7_testsuite_results [of "[''+ make\<newline>'', ''MSGBLD0300\<newline>'']"
      "''MSGBLD0290''" "''MSGBLD0300''" ?pre "''MSGBLD0300\<newline>''" "[''   Failed 3\<newline>'']"]
  from t a have 1: "testsuite_results [''+ make\<newline>'', ''MSGBLD0300\<newline>'']
       ''MSGBLD0290'' ''MSGBLD0300'' = Inr (None, None, None)"
    by blast
  from t b have "testsuite_results (?pre @ ''MSGBLD0300\<newline>'' # [''   Failed 3\<newline>''])
       ''MSGBLD0290'' ''MSGBLD0300''
     = testsuite_results (?pre @ [''MSGBLD0300\<newline>'']) ''MSGBLD0290'' ''MSGBLD0300''"
    by blast
  then have 2: "testsuite_results (?pre @ ''MSGBLD0300\<newline>'' # [''   Failed 3\<newline>''])
       ''MSGBLD0290'' ''MSGBLD0300'' = Inr (Some True, Some 42, Some 0)"
    using c by (simp only:)
  from 1 2 show ?thesis by (rule conjI)
qed

subsection \<open>Message counts and the return code\<close>

lemma lookup_key:
  "k \<in> set (keys t) \<Longrightarrow> \<exists>d. lookup t k = Inr d"
  by (cases "map_of t k") (auto simp: lookup_def keys_def map_of_eq_None_iff)

lemma number_for_file_key:
  "k \<in> set (keys t) \<Longrightarrow> \<exists>n. number_of_msgs_for_file_in_summary k (Some t) = Inr n"
  using lookup_key [of k t] by (auto simp: number_of_msgs_for_file_in_summary_def)

lemma sum_msgs_of_files_Inr:
  "set files \<subseteq> set (keys t) \<Longrightarrow> \<exists>n. sum_msgs_of_files (Some t) acc files = Inr n"
proof (induction files arbitrary: acc)
  case Nil
  then show ?case by simp
next
  case (Cons fname files)
  then obtain n where "number_of_msgs_for_file_in_summary fname (Some t) = Inr n"
    using number_for_file_key [of fname t] by auto
  with Cons show ?case by simp
qed

text \<open>
  \<open>number_of_msgs_in_summary\<close> raises nothing, since it looks up the keys of the
  summary only.
\<close>

lemma number_of_msgs_in_summary_Inr: "\<exists>n. number_of_msgs_in_summary summary = Inr n"
  by (cases summary) (auto simp: number_of_msgs_in_summary_def intro: sum_msgs_of_files_Inr)

text \<open>
  What \<open>build_return_code\<close> computes: \<open>0\<close> when the four statuses of the build
  are \<open>True\<close>, the two statuses of VERA++ and clang-format are \<open>True\<close> or
  \<open>None\<close>, and each of the four summaries, the one of cppcheck among them, has no
  message; and \<open>1\<close> otherwise.
\<close>

lemma build_return_code_law:
  "build_return_code status_vera_init status_cppcheck_init status_format_init
     status_cmake_configure status_make status_make_install status_tests
     summary_vera summary_cppcheck summary_format summary_pep8 =
   (if (status_vera_init = None \<or> status_vera_init = Some True)
       \<and> (status_format_init = None \<or> status_format_init = Some True)
       \<and> status_cmake_configure = Some True \<and> status_make = Some True
       \<and> status_make_install = Some True \<and> status_tests = Some True
       \<and> number_of_msgs_in_summary summary_vera = Inr 0
       \<and> number_of_msgs_in_summary summary_cppcheck = Inr 0
       \<and> number_of_msgs_in_summary summary_format = Inr 0
       \<and> number_of_msgs_in_summary summary_pep8 = Inr 0
    then Inr 0 else Inr 1)"
proof -
  obtain nv nc nf np where
    "number_of_msgs_in_summary summary_vera = Inr nv"
    "number_of_msgs_in_summary summary_cppcheck = Inr nc"
    "number_of_msgs_in_summary summary_format = Inr nf"
    "number_of_msgs_in_summary summary_pep8 = Inr np"
    using number_of_msgs_in_summary_Inr by meson
  then show ?thesis
    by (simp add: build_return_code_def msgs_zero_then_def truthy_def)
qed

text \<open>
  Claim C1. The comment in \<open>build_return_code\<close> says that cppcheck is deactivated
  and that its messages will not cause the build to fail, and the claim leaves the
  messages of cppcheck out of the condition. The condition of the source contains
  \<open>number_of_msgs_in_summary(summary_cppcheck) == 0\<close> all the same; only the status
  of the cppcheck initialisation is left out. With every status \<open>True\<close>, no message
  of VERA++, clang-format or PEP8, and one message of cppcheck, the function returns
  \<open>1\<close>, where the claim and the comment give \<open>0\<close>.
\<close>

theorem C1_cppcheck_message_fails_build:
  "build_return_code (Some True) (Some True) (Some True) (Some True) (Some True) (Some True)
     (Some True)
     (Some [(''a.cpp'', [])])
     (Some [(''a.cpp'', [(''(error) Null pointer dereference'', 1)])])
     (Some [(''a.cpp'', [])])
     (Some [])
   = Inr 1"
  by (simp add: build_return_code_def truthy_def msgs_zero_then_def number_of_msgs_in_summary_def
      keys_def number_of_msgs_for_file_in_summary_def lookup_def)

subsection \<open>The tables of the code analysis\<close>

lemma analysis_file_table_key:
  assumes "k \<in> set (keys sv)" "k \<in> set (keys sc)" "k \<in> set (keys sf)"
  shows "\<exists>t. analysis_file_table r sv sc sf k = Inr t"
proof -
  from assms obtain nv nc nf dv dc df where
    "number_of_msgs_for_file_in_summary k (Some sv) = Inr nv"
    "number_of_msgs_for_file_in_summary k (Some sc) = Inr nc"
    "number_of_msgs_for_file_in_summary k (Some sf) = Inr nf"
    "lookup sv k = Inr dv" "lookup sc k = Inr dc" "lookup sf k = Inr df"
    using number_for_file_key lookup_key by meson
  then show ?thesis by (simp add: analysis_file_table_def)
qed

lemma pep8_file_table_key:
  assumes "k \<in> set (keys sp)"
  shows "\<exists>t. pep8_file_table r sp k = Inr t"
proof -
  from assms obtain n d where
    "number_of_msgs_for_file_in_summary k (Some sp) = Inr n" "lookup sp k = Inr d"
    using number_for_file_key lookup_key by meson
  then show ?thesis by (simp add: pep8_file_table_def)
qed

lemma append_file_tables_Inr:
  "\<forall>k\<in>set files. \<exists>t. ft k = Inr t \<Longrightarrow> \<exists>out. append_file_tables ft acc files = Inr out"
proof (induction files arbitrary: acc)
  case Nil
  then show ?case by simp
next
  case (Cons fname files)
  then obtain t where "ft fname = Inr t" by auto
  with Cons show ?case by simp
qed

lemma pep8_part_Inr:
  "\<exists>out. (case sp of None \<Rightarrow> Inr acc
          | Some p \<Rightarrow> append_file_tables (pep8_file_table r p) acc (keys p)) = Inr out"
  by (cases sp) (auto intro!: append_file_tables_Inr pep8_file_table_key)

text \<open>
  What the assertions do, with the three summaries of VERA++, cppcheck and clang-format
  not \<open>None\<close>: when their sets of file names are not all the same, the function
  fails with \<open>AssertionError\<close> and renders nothing; when their lists of keys are the
  same, no assertion fails and the function returns its text, with no \<open>KeyError\<close>
  either; and one of the assertions fails exactly when the lists of keys differ.
\<close>

lemma code_analysis_assertions:
  "(set (keys sf) \<noteq> set (keys sc) \<or> set (keys sf) \<noteq> set (keys sv) \<longrightarrow>
      code_analysis_per_file_tables r (Some sv) (Some sc) (Some sf) sp = Inl AssertionError)
   \<and> (keys sf = keys sc \<and> keys sf = keys sv \<longrightarrow>
      (\<exists>out. code_analysis_per_file_tables r (Some sv) (Some sc) (Some sf) sp = Inr out))
   \<and> (code_analysis_per_file_tables r (Some sv) (Some sc) (Some sf) sp = Inl AssertionError
      \<longleftrightarrow> \<not> (keys sf = keys sc \<and> keys sf = keys sv))"
proof -
  have fire: "code_analysis_per_file_tables r (Some sv) (Some sc) (Some sf) sp = Inl AssertionError"
    if "\<not> (keys sf = keys sc \<and> keys sf = keys sv)"
    using that by (auto simp: code_analysis_per_file_tables_def)
  have ok: "\<exists>out. code_analysis_per_file_tables r (Some sv) (Some sc) (Some sf) sp = Inr out"
    if eq: "keys sf = keys sc \<and> keys sf = keys sv"
  proof -
    from eq have "\<forall>k\<in>set (keys sf). \<exists>t. analysis_file_table r sv sc sf k = Inr t"
      by (auto intro!: analysis_file_table_key)
    then obtain out where
      "append_file_tables (analysis_file_table r sv sc sf) [] (keys sf) = Inr out"
      using append_file_tables_Inr by blast
    then have "bind_err (append_file_tables (analysis_file_table r sv sc sf) [] (keys sf))
        (\<lambda>all_tables. case sp of None \<Rightarrow> Inr all_tables
           | Some p \<Rightarrow> append_file_tables (pep8_file_table r p) all_tables (keys p))
      = (case sp of None \<Rightarrow> Inr out
           | Some p \<Rightarrow> append_file_tables (pep8_file_table r p) out (keys p))"
      by simp
    moreover have "code_analysis_per_file_tables r (Some sv) (Some sc) (Some sf) sp
      = bind_err (append_file_tables (analysis_file_table r sv sc sf) [] (keys sf))
        (\<lambda>all_tables. case sp of None \<Rightarrow> Inr all_tables
           | Some p \<Rightarrow> append_file_tables (pep8_file_table r p) all_tables (keys p))"
    proof -
      from eq have e: "keys sc = keys sf" "keys sv = keys sf" by metis+
      show ?thesis by (simp add: code_analysis_per_file_tables_def e)
    qed
    ultimately show ?thesis
      using pep8_part_Inr [where sp = sp and acc = out and r = r] by simp
  qed
  from ok have iff:
    "code_analysis_per_file_tables r (Some sv) (Some sc) (Some sf) sp = Inl AssertionError
      \<longleftrightarrow> \<not> (keys sf = keys sc \<and> keys sf = keys sv)"
    using fire by (metis Inl_Inr_False)
  from fire have "set (keys sf) \<noteq> set (keys sc) \<or> set (keys sf) \<noteq> set (keys sv) \<longrightarrow>
      code_analysis_per_file_tables r (Some sv) (Some sc) (Some sf) sp = Inl AssertionError"
    by metis
  with ok iff show ?thesis by blast
qed

text \<open>
  Claim C8. The comment before the two assertions says that the keys, i.e. the file
  names, are identical in the three dictionaries, and the assertions are there to find
  summaries whose file names differ. They compare the results of \<open>keys()\<close>,
  which are lists in Python 2, so an assertion also fails when the three summaries have
  the same file names and one of them iterates over them in another order. Here the
  three summaries have the file names \<open>a.cpp\<close> and \<open>i.cpp\<close>, the
  summary of clang-format iterates over them in the other order, and the function fails
  with \<open>AssertionError\<close>, where the claim lets no assertion fail.
\<close>

theorem C8_same_files_other_order_fails:
  "set (keys [(''i.cpp'', []), (''a.cpp'', [])]) = set (keys [(''a.cpp'', []), (''i.cpp'', [])])
   \<and> code_analysis_per_file_tables (concat \<circ> concat)
       (Some [(''a.cpp'', []), (''i.cpp'', [])])
       (Some [(''a.cpp'', []), (''i.cpp'', [])])
       (Some [(''i.cpp'', []), (''a.cpp'', [])]) None
     = Inl AssertionError"
  by (auto simp: code_analysis_per_file_tables_def keys_def)

end
